theory Spec2Isabelle
  imports Main
begin

section \<open>Values, errors and the platform\<close>

text \<open>
  The helper layer of \<^verbatim>\<open>src/helperFunctions.ts\<close> works on decoded JSON. A value that
  is only read (media metadata, the extra fields of a post) is a tree; \<open>JUndefined\<close> is
  what reading a missing property gives. Numbers are the integers: identifiers and page
  sizes, no fractions.
\<close>

datatype jsval =
    JUndefined
  | JNull
  | JBool bool
  | JNum int
  | JStr string
  | JArr "jsval list"
  | JObj "(string \<times> jsval) list"

text \<open>
  What a \<^verbatim>\<open>throw\<close> or a rejected promise carries: the \<^verbatim>\<open>TypeError\<close> of the
  platform (a property of \<^verbatim>\<open>undefined\<close>, an invalid URL), or the reason a collaborator
  rejected with.
\<close>

datatype js_error = TypeError | Rejected string

text \<open>Truthiness, as \<^verbatim>\<open>if (v)\<close> and \<^verbatim>\<open>v || w\<close> test it.\<close>

fun truthy :: "jsval \<Rightarrow> bool" where
  "truthy JUndefined = False"
| "truthy JNull = False"
| "truthy (JBool b) = b"
| "truthy (JNum n) = (n \<noteq> 0)"
| "truthy (JStr s) = (s \<noteq> [])"
| "truthy (JArr xs) = True"
| "truthy (JObj fs) = True"

text \<open>
  \<^verbatim>\<open>v.k\<close> for the keys this file reads (\<^verbatim>\<open>media_details\<close>, \<^verbatim>\<open>sizes\<close>,
  \<^verbatim>\<open>full\<close>, \<^verbatim>\<open>source_url\<close>; none is a built-in property of a string, number,
  boolean or array): a \<^verbatim>\<open>TypeError\<close> on \<^verbatim>\<open>undefined\<close> and \<^verbatim>\<open>null\<close>, the
  field of an object, \<^verbatim>\<open>undefined\<close> otherwise.
\<close>

fun get_prop :: "jsval \<Rightarrow> string \<Rightarrow> js_error + jsval" where
  "get_prop JUndefined k = Inl TypeError"
| "get_prop JNull k = Inl TypeError"
| "get_prop (JObj fs) k = Inr (case map_of fs k of None \<Rightarrow> JUndefined | Some v \<Rightarrow> v)"
| "get_prop v k = Inr JUndefined"

text \<open>\<^verbatim>\<open>xs[i]\<close> on an array: \<^verbatim>\<open>undefined\<close> out of range.\<close>

definition at_index :: "'a list \<Rightarrow> nat \<Rightarrow> 'a option" where
  "at_index xs i = (if i < length xs then Some (xs ! i) else None)"

text \<open>\<^verbatim>\<open>s.split(sep)\<close> for a one-character separator: never empty.\<close>

fun js_split :: "char \<Rightarrow> string \<Rightarrow> string list" where
  "js_split sep [] = [[]]"
| "js_split sep (c # cs) =
     (if c = sep then [] # js_split sep cs
      else (case js_split sep cs of
              [] \<Rightarrow> [[c]]
            | w # ws \<Rightarrow> (c # w) # ws))"

text \<open>\<^verbatim>\<open>xs.join(sep)\<close> on an array of strings.\<close>

fun js_join :: "string \<Rightarrow> string list \<Rightarrow> string" where
  "js_join sep [] = []"
| "js_join sep [x] = x"
| "js_join sep (x # y # ys) = x @ sep @ js_join sep (y # ys)"

text \<open>
  \<^verbatim>\<open>[...new Set(xs)]\<close>: the set keeps insertion order, and adding a value it already
  holds changes nothing.
\<close>

definition set_add :: "'a list \<Rightarrow> 'a \<Rightarrow> 'a list" where
  "set_add s x = (if x \<in> set s then s else s @ [x])"

definition js_set :: "'a list \<Rightarrow> 'a list" where
  "js_set xs = foldl set_add [] xs"

text \<open>The decimal text of an integer, as a template literal prints it.\<close>

definition digit_char :: "nat \<Rightarrow> char" where
  "digit_char d = ''0123456789'' ! d"

function nat_string :: "nat \<Rightarrow> string" where
  "nat_string n =
     (if n < 10 then [digit_char n] else nat_string (n div 10) @ [digit_char (n mod 10)])"
  by pat_completeness auto
termination
  by (relation "measure id") auto

declare nat_string.simps [simp del]

definition number_string :: "int \<Rightarrow> string" where
  "number_string i = (if i < 0 then CHR ''-'' # nat_string (nat (- i)) else nat_string (nat i))"

section \<open>The parameter builder\<close>

text \<open>
  \<^verbatim>\<open>endpointParamsBuilder(fields?: string[], quantity?: number)\<close>. \<open>fields\<close> is
  \<open>None\<close> when the argument is not an array; \<open>quantity\<close> is any value, tested with
  \<^verbatim>\<open>typeof quantity === 'number'\<close>. The result lists its keys in insertion order.
\<close>

definition endpointParamsBuilder :: "string list option \<Rightarrow> jsval \<Rightarrow> (string \<times> jsval) list" where
  "endpointParamsBuilder fields quantity =
     (let endpointParams = [];
          endpointParams =
            (case fields of
               Some fs \<Rightarrow>
                 if length fs > 0
                 then (let uniqueFields = js_set fs
                       in endpointParams @ [(''_fields'', JStr (js_join '','' uniqueFields))])
                 else endpointParams
             | None \<Rightarrow> endpointParams);
          endpointParams =
            (case quantity of
               JNum n \<Rightarrow> endpointParams @ [(''per_page'', JNum n)]
             | _ \<Rightarrow> endpointParams)
      in endpointParams)"

section \<open>Slug extraction\<close>

text \<open>
  \<^verbatim>\<open>new URL(link).pathname.split('/')[1]\<close>: the constructor may throw; the index may be
  out of range, which gives \<^verbatim>\<open>undefined\<close> (\<open>None\<close>).
\<close>

definition slugExtractor :: "(string \<Rightarrow> string option) \<Rightarrow> string \<Rightarrow> js_error + string option" where
  "slugExtractor new_URL link =
     (case new_URL link of
        None \<Rightarrow> Inl TypeError
      | Some pathname \<Rightarrow> Inr (at_index (js_split CHR ''/'' pathname) 1))"

section \<open>The image link\<close>

text \<open>
  \<^verbatim>\<open>getImageLink(featured_media)\<close>, over the collaborator \<^verbatim>\<open>fetchData\<close>: what its
  promise settles to, \<open>Inl\<close> the rejection, \<open>Inr\<close> the decoded array. The body of the
  \<^verbatim>\<open>try\<close> reads \<^verbatim>\<open>imageMetaInfo[0].media_details.sizes.full.source_url\<close>; the
  \<^verbatim>\<open>catch\<close> logs and throws the same error again.
\<close>

definition getImageLink_try :: "(string \<Rightarrow> js_error + jsval list) \<Rightarrow> int \<Rightarrow> js_error + jsval" where
  "getImageLink_try fetchData featured_media =
     (case fetchData (''media/'' @ number_string featured_media) of
        Inl e \<Rightarrow> Inl e
      | Inr imageMetaInfo \<Rightarrow>
          (case get_prop (case at_index imageMetaInfo 0 of None \<Rightarrow> JUndefined | Some m \<Rightarrow> m)
                  ''media_details'' of
             Inl e \<Rightarrow> Inl e
           | Inr media_details \<Rightarrow>
               (case get_prop media_details ''sizes'' of
                  Inl e \<Rightarrow> Inl e
                | Inr sizes \<Rightarrow>
                    (case get_prop sizes ''full'' of
                       Inl e \<Rightarrow> Inl e
                     | Inr full \<Rightarrow> get_prop full ''source_url''))))"

definition getImageLink :: "(string \<Rightarrow> js_error + jsval list) \<Rightarrow> int \<Rightarrow> js_error + jsval" where
  "getImageLink fetchData featured_media =
     (case getImageLink_try fetchData featured_media of
        Inl error \<Rightarrow> Inl error
      | Inr imageLink \<Rightarrow> Inr imageLink)"

section \<open>Content items and the store\<close>

text \<open>
  Modelled from the spec: the types \<^verbatim>\<open>Post\<close> and \<^verbatim>\<open>Page\<close> of \<^verbatim>\<open>./types\<close>, which
  \<^verbatim>\<open>helperFunctions.ts\<close> imports. A content item has the fields of the specification's
  data model, which are the ones the code reads and writes, and \<open>other_fields\<close> for
  everything else the content API sent. A title is an object with a \<^verbatim>\<open>rendered\<close> string
  and whatever else the API put beside it.
\<close>

record title_obj =
  rendered :: string
  title_other :: "(string \<times> jsval) list"

record post =
  slug :: string
  link :: string
  categories :: "int list"
  image_field :: jsval
  title :: title_obj
  featured_media :: int
  other_fields :: "(string \<times> jsval) list"

text \<open>
  Objects live in a store and are passed by reference: an address is an index into the
  store, and an object literal allocates at the end. Reading a field through an address
  that holds no object is reading a field of \<^verbatim>\<open>undefined\<close>.
\<close>

type_synonym addr = nat
type_synonym heap = "post list"

definition deref :: "heap \<Rightarrow> addr \<Rightarrow> post option" where
  "deref h a = (if a < length h then Some (h ! a) else None)"

text \<open>
  The collaborators of \<^verbatim>\<open>./index\<close> and the platform's URL parser, as parameters.
  \<^item> \<open>url_pathname s\<close> is the \<^verbatim>\<open>pathname\<close> of \<^verbatim>\<open>new URL(s)\<close>, or \<open>None\<close> when the
    constructor throws its \<^verbatim>\<open>TypeError\<close>.
  \<^item> \<open>fetchPageBySlug\<close> and \<open>fetchData\<close> give what their promise settles to. The objects
    of a fulfilled by-slug lookup are new objects: the store gets them when the lookup
    is awaited.
\<close>

record env =
  url_pathname :: "string \<Rightarrow> string option"
  fetchPageBySlug :: "string option \<Rightarrow> js_error + post list"
  fetchData :: "string \<Rightarrow> js_error + jsval list"

section \<open>Promises\<close>

text \<open>
  \<^verbatim>\<open>xs.map(async (x) => ...)\<close>: one settled promise per element, in the order of the
  elements; the callbacks share the store. No callback reads what another one wrote:
  each reads its own element and allocates, so the order in which the platform resumes
  them decides no more than which fresh address an allocation gets, and they run here in
  the order of the list. \<^verbatim>\<open>Promise.all\<close> rejects with the first rejection and
  otherwise fulfils with all the values, in the order of the list.
\<close>

fun map_async :: "(heap \<Rightarrow> addr \<Rightarrow> heap \<times> (js_error + 'r)) \<Rightarrow> heap \<Rightarrow> addr list
    \<Rightarrow> heap \<times> (js_error + 'r) list" where
  "map_async f h [] = (h, [])"
| "map_async f h (a # rest) =
     (case f h a of
        (h1, r) \<Rightarrow> (case map_async f h1 rest of (h2, rs) \<Rightarrow> (h2, r # rs)))"

fun promise_all :: "(js_error + 'r) list \<Rightarrow> js_error + 'r list" where
  "promise_all [] = Inr []"
| "promise_all (Inl e # ps) = Inl e"
| "promise_all (Inr v # ps) =
     (case promise_all ps of Inl e \<Rightarrow> Inl e | Inr vs \<Rightarrow> Inr (v # vs))"

section \<open>The redirect resolver\<close>

text \<open>
  What the callback of \<^verbatim>\<open>detectRedirects\<close> returns for one post: the post itself, or
  the array the by-slug lookup gave. \<^verbatim>\<open>flat()\<close> splices the arrays.
\<close>

datatype item_result = One addr | Many "addr list"

definition chunk :: "item_result \<Rightarrow> addr list" where
  "chunk r = (case r of One a \<Rightarrow> [a] | Many xs \<Rightarrow> xs)"

definition flat :: "item_result list \<Rightarrow> addr list" where
  "flat rs = concat (map chunk rs)"

text \<open>
  The object literal of the merge,
  \<^verbatim>\<open>{...redirectedPost[0], categories: post.categories, image: post.image,
  title: {rendered: post.title.rendered}}\<close>: the fields of the fetched object \<open>q\<close>, three of
  them given anew; the title is a new object with one field.
\<close>

definition merge_fields :: "post \<Rightarrow> post \<Rightarrow> post" where
  "merge_fields p q =
     q\<lparr>categories := categories p,
       image_field := image_field p,
       title := \<lparr>rendered = rendered (title p), title_other = []\<rparr>\<rparr>"

text \<open>
  The body of the \<^verbatim>\<open>try\<close>. \<open>redirectedPost\<close> is the fetched array, as the addresses
  of its objects; \<^verbatim>\<open>redirectedPost[0] = {...}\<close> allocates the merged object and
  stores its address in the array. By its declared type the lookup fulfils with an
  array, so \<^verbatim>\<open>redirectedPost && redirectedPost.length > 0\<close> is the test of its length.
\<close>

definition redirect_try :: "env \<Rightarrow> heap \<Rightarrow> addr \<Rightarrow> heap \<times> (js_error + item_result)" where
  "redirect_try E h a =
     (case deref h a of
        None \<Rightarrow> (h, Inl TypeError)
      | Some post \<Rightarrow>
          (case slugExtractor (url_pathname E) (link post) of
             Inl e \<Rightarrow> (h, Inl e)
           | Inr linkSlug \<Rightarrow>
               if Some (slug post) \<noteq> linkSlug then
                 (case fetchPageBySlug E linkSlug of
                    Inl e \<Rightarrow> (h, Inl e)
                  | Inr fetched \<Rightarrow>
                      (let h1 = h @ fetched;
                           redirectedPost = [length h ..< length h1]
                       in if length redirectedPost > 0 then
                            (let h2 = h1 @ [merge_fields post (h1 ! (redirectedPost ! 0))]
                             in (h2, Inr (Many (redirectedPost[0 := length h1]))))
                          else (h1, Inr (Many redirectedPost))))
               else (h, Inr (One a))))"

text \<open>The callback: the \<^verbatim>\<open>catch\<close> logs the error and returns the post.\<close>

definition redirect_item :: "env \<Rightarrow> heap \<Rightarrow> addr \<Rightarrow> heap \<times> (js_error + item_result)" where
  "redirect_item E h a =
     (case redirect_try E h a of
        (h', Inl error) \<Rightarrow> (h', Inr (One a))
      | (h', Inr r) \<Rightarrow> (h', Inr r))"

definition detectRedirects :: "env \<Rightarrow> heap \<Rightarrow> addr list \<Rightarrow> heap \<times> (js_error + addr list)" where
  "detectRedirects E h posts =
     (case map_async (redirect_item E) h posts of
        (h', settled) \<Rightarrow>
          (case promise_all settled of
             Inl e \<Rightarrow> (h', Inl e)
           | Inr newPosts \<Rightarrow> (h', Inr (flat newPosts))))"

section \<open>The image enricher\<close>

text \<open>
  The callback of \<^verbatim>\<open>addImagesToPost\<close>: \<^verbatim>\<open>post = { ...post, image: imageLink }\<close>
  allocates a copy and returns its address; the \<^verbatim>\<open>catch\<close> returns the post.
\<close>

definition image_try :: "env \<Rightarrow> heap \<Rightarrow> addr \<Rightarrow> heap \<times> (js_error + addr)" where
  "image_try E h a =
     (case deref h a of
        None \<Rightarrow> (h, Inl TypeError)
      | Some post \<Rightarrow>
          (case getImageLink (fetchData E) (featured_media post) of
             Inl e \<Rightarrow> (h, Inl e)
           | Inr imageLink \<Rightarrow> (h @ [post\<lparr>image_field := imageLink\<rparr>], Inr (length h))))"

definition image_item :: "env \<Rightarrow> heap \<Rightarrow> addr \<Rightarrow> heap \<times> (js_error + addr)" where
  "image_item E h a =
     (case image_try E h a of
        (h', Inl error) \<Rightarrow> (h', Inr a)
      | (h', Inr post) \<Rightarrow> (h', Inr post))"

text \<open>
  \<^verbatim>\<open>data[0].image\<close> is read before anything else: on an empty array \<^verbatim>\<open>data[0]\<close> is
  \<^verbatim>\<open>undefined\<close> and the read throws, which rejects the promise the function returns.
\<close>

definition addImagesToPost :: "env \<Rightarrow> heap \<Rightarrow> addr list \<Rightarrow> heap \<times> (js_error + addr list)" where
  "addImagesToPost E h data =
     (case at_index data 0 of
        None \<Rightarrow> (h, Inl TypeError)
      | Some a0 \<Rightarrow>
          (case deref h a0 of
             None \<Rightarrow> (h, Inl TypeError)
           | Some first \<Rightarrow>
               if truthy (image_field first) \<or> featured_media first = 0 then (h, Inr data)
               else (case map_async (image_item E) h data of
                       (h', settled) \<Rightarrow> (h', promise_all settled))))"

section \<open>The specification's notions\<close>

text \<open>
  The specification's "deduplicate, order of first occurrence preserved", written
  for itself: an element stays where it first stands and its later copies go.
\<close>

fun spec_dedup_first :: "'a list \<Rightarrow> 'a list" where
  "spec_dedup_first [] = []"
| "spec_dedup_first (x # xs) = x # spec_dedup_first (removeAll x xs)"

text \<open>
  The specification's "expected nested field" of the media metadata: the path
  \<^verbatim>\<open>[0].media_details.sizes.full.source_url\<close>, present when every object on the way is
  there and has the next field. \<open>spec_full_size\<close> is the path without its last step.
\<close>

definition spec_field :: "string \<Rightarrow> jsval \<Rightarrow> jsval option" where
  "spec_field k v = (case v of JObj fs \<Rightarrow> map_of fs k | _ \<Rightarrow> None)"

definition spec_full_size :: "jsval list \<Rightarrow> jsval option" where
  "spec_full_size imageMetaInfo =
     Option.bind (Option.bind (Option.bind (at_index imageMetaInfo 0)
       (spec_field ''media_details'')) (spec_field ''sizes'')) (spec_field ''full'')"

definition spec_nested_field :: "jsval list \<Rightarrow> jsval option" where
  "spec_nested_field imageMetaInfo =
     Option.bind (spec_full_size imageMetaInfo) (spec_field ''source_url'')"

section \<open>Notions of the proofs\<close>

text \<open>
  A post the resolver hands back as it is, in the store \<open>h\<close>; and what the callback's
  result \<open>r\<close> for the post at \<open>a\<close> can be, when the store has grown from \<open>h0\<close>:
  the post itself if it is kept, and otherwise only objects allocated since.
\<close>

definition kept :: "env \<Rightarrow> heap \<Rightarrow> addr \<Rightarrow> bool" where
  "kept E h a = (a < length h \<and> snd (redirect_item E h a) = Inr (One a))"

definition item_rel :: "env \<Rightarrow> heap \<Rightarrow> addr \<Rightarrow> item_result \<Rightarrow> bool" where
  "item_rel E h0 a r =
     ((kept E h0 a \<longrightarrow> r = One a) \<and>
      (\<forall>x \<in> set (chunk r). length h0 \<le> x \<or> (x = a \<and> kept E h0 a)))"

text \<open>The same for the image enricher: a post whose image link cannot be had.\<close>

definition image_fails :: "env \<Rightarrow> heap \<Rightarrow> addr \<Rightarrow> bool" where
  "image_fails E h a =
     (case deref h a of
        None \<Rightarrow> False
      | Some p \<Rightarrow> (case getImageLink (fetchData E) (featured_media p) of
                    Inl e \<Rightarrow> True | Inr l \<Rightarrow> False))"

definition image_rel :: "env \<Rightarrow> heap \<Rightarrow> addr \<Rightarrow> addr \<Rightarrow> bool" where
  "image_rel E h0 a r = (image_fails E h0 a \<longrightarrow> r = a)"

section \<open>Sample data\<close>

text \<open>
  The \<^verbatim>\<open>pathname\<close> the URL parser of the platform reports for the links of the examples
  below; \<^verbatim>\<open>new URL("not a url")\<close> throws, and here so does every string
  that is not listed.
\<close>

definition sample_url_pathname :: "string \<Rightarrow> string option" where
  "sample_url_pathname s =
     (if s = ''https://example.com/my-post/'' then Some ''/my-post/''
      else if s = ''https://x/new/'' then Some ''/new/''
      else if s = ''https://x/old/'' then Some ''/old/''
      else if s = ''mailto:a@b.c'' then Some ''a@b.c''
      else None)"

text \<open>The posts of the specification's redirect scenario, and a post already resolved.\<close>

definition original_post :: post where
  "original_post =
     \<lparr>slug = ''old'', link = ''https://x/new/'', categories = [1],
      image_field = JStr ''i.jpg'', title = \<lparr>rendered = ''T'', title_other = []\<rparr>,
      featured_media = 0, other_fields = []\<rparr>"

definition target_post :: post where
  "target_post =
     \<lparr>slug = ''new'', link = ''https://x/new/'', categories = [9],
      image_field = JStr ''j.jpg'', title = \<lparr>rendered = ''New'', title_other = []\<rparr>,
      featured_media = 7, other_fields = [(''id'', JNum 42)]\<rparr>"

definition resolved_post :: post where
  "resolved_post =
     \<lparr>slug = ''old'', link = ''https://x/old/'', categories = [2],
      image_field = JUndefined, title = \<lparr>rendered = ''R'', title_other = []\<rparr>,
      featured_media = 7, other_fields = []\<rparr>"

text \<open>A post whose link is not a URL, and a second post with no image yet.\<close>

definition broken_post :: post where
  "broken_post =
     \<lparr>slug = ''lost'', link = ''not a url'', categories = [],
      image_field = JUndefined, title = \<lparr>rendered = ''L'', title_other = []\<rparr>,
      featured_media = 8, other_fields = []\<rparr>"

definition bare_post :: post where
  "bare_post =
     \<lparr>slug = ''bare'', link = ''https://x/bare/'', categories = [],
      image_field = JUndefined, title = \<lparr>rendered = ''B'', title_other = []\<rparr>,
      featured_media = 9, other_fields = []\<rparr>"

text \<open>An environment around a by-slug lookup and a media lookup.\<close>

definition sample_env :: "(string option \<Rightarrow> js_error + post list) \<Rightarrow> (string \<Rightarrow> js_error + jsval list) \<Rightarrow> env" where
  "sample_env by_slug by_path =
     \<lparr>url_pathname = sample_url_pathname, fetchPageBySlug = by_slug, fetchData = by_path\<rparr>"

definition lookup_none :: "string option \<Rightarrow> js_error + post list" where
  "lookup_none s = Inr []"

definition lookup_down :: "string option \<Rightarrow> js_error + post list" where
  "lookup_down s = Inl (Rejected ''network'')"

definition lookup_target :: "string option \<Rightarrow> js_error + post list" where
  "lookup_target s = (if s = Some ''new'' then Inr [target_post] else Inr [])"

definition media_down :: "string \<Rightarrow> js_error + jsval list" where
  "media_down path = Inl (Rejected ''network'')"

text \<open>The redirect target again, as the API sends it to an editor: the title has a raw form too.\<close>

definition target_post_raw :: post where
  "target_post_raw =
     target_post\<lparr>title := \<lparr>rendered = ''New'', title_other = [(''raw'', JStr ''New'')]\<rparr>\<rparr>"

definition lookup_target_raw :: "string option \<Rightarrow> js_error + post list" where
  "lookup_target_raw s = (if s = Some ''new'' then Inr [target_post_raw] else Inr [])"

text \<open>
  Media metadata: item 7 with its full-size image, item 8 whose full size has no
  \<^verbatim>\<open>source_url\<close>, item 9 with no sizes at all; nothing else is there.
\<close>

definition media_with_url :: "jsval list" where
  "media_with_url =
     [JObj [(''media_details'',
        JObj [(''sizes'', JObj [(''full'', JObj [(''source_url'', JStr ''https://x/i.jpg'')])])])]]"

definition media_without_url :: "jsval list" where
  "media_without_url = [JObj [(''media_details'', JObj [(''sizes'', JObj [(''full'', JObj [])])])]]"

definition media_without_sizes :: "jsval list" where
  "media_without_sizes = [JObj [(''media_details'', JObj [])]]"

definition media_lookup :: "string \<Rightarrow> js_error + jsval list" where
  "media_lookup path =
     (if path = ''media/7'' then Inr media_with_url
      else if path = ''media/8'' then Inr media_without_url
      else if path = ''media/9'' then Inr media_without_sizes
      else Inl (Rejected ''not found''))"

section \<open>The parameter builder: what it stores\<close>

lemma set_spec_dedup_first: "set (spec_dedup_first xs) = set xs"
  by (induction xs rule: spec_dedup_first.induct) auto

lemma distinct_spec_dedup_first: "distinct (spec_dedup_first xs)"
  by (induction xs rule: spec_dedup_first.induct) (auto simp: set_spec_dedup_first)

text \<open>
  Filling the set from \<open>acc\<close> on: the elements already in \<open>acc\<close> are skipped, the
  others are appended in the order of their first occurrence.
\<close>

lemma foldl_set_add:
  "foldl set_add acc xs = acc @ spec_dedup_first (filter (\<lambda>x. x \<notin> set acc) xs)"
proof (induction xs arbitrary: acc)
  case Nil
  then show ?case by simp
next
  case (Cons x xs)
  show ?case
  proof (cases "x \<in> set acc")
    case True
    then show ?thesis using Cons.IH [of acc] by (simp add: set_add_def)
  next
    case False
    have "removeAll x (filter (\<lambda>y. y \<notin> set acc) xs) = filter (\<lambda>y. y \<notin> set (acc @ [x])) xs"
      by (induction xs) auto
    then show ?thesis using False Cons.IH [of "acc @ [x]"] by (simp add: set_add_def)
  qed
qed

lemma js_set_refines: "js_set xs = spec_dedup_first xs"
  by (simp add: js_set_def foldl_set_add)

text \<open>
  C8. \<open>endpointParamsBuilder\<close> stores, when the fields argument is a non-empty list, the
  fields deduplicated in order of first occurrence and joined with commas under the
  fields key (\<^verbatim>\<open>_fields\<close> in the code), and the quantity under the page-size key
  (\<^verbatim>\<open>per_page\<close>) exactly when it is a number; anything else is left out, and nothing is
  raised. The examples of the specification are the witness.
\<close>

theorem endpointParamsBuilder_stores:
  "endpointParamsBuilder fs quantity =
     (case fs of
        Some xs \<Rightarrow>
          if xs \<noteq> [] then [(''_fields'', JStr (js_join '','' (spec_dedup_first xs)))] else []
      | None \<Rightarrow> [])
     @ (case quantity of JNum n \<Rightarrow> [(''per_page'', JNum n)] | _ \<Rightarrow> [])
   \<and> map_of (endpointParamsBuilder fs quantity) ''_fields'' =
     (case fs of
        Some xs \<Rightarrow> if xs \<noteq> [] then Some (JStr (js_join '','' (spec_dedup_first xs))) else None
      | None \<Rightarrow> None)
   \<and> map_of (endpointParamsBuilder fs quantity) ''per_page'' =
     (case quantity of JNum n \<Rightarrow> Some (JNum n) | _ \<Rightarrow> None)"
  by (simp add: endpointParamsBuilder_def js_set_refines split: option.splits jsval.splits)

theorem endpointParamsBuilder_stores_witness:
  "endpointParamsBuilder (Some [''a'', ''b'', ''a'']) (JNum 5)
     = [(''_fields'', JStr ''a,b''), (''per_page'', JNum 5)]
   \<and> endpointParamsBuilder (Some []) JUndefined = []
   \<and> endpointParamsBuilder None (JStr ''5'') = []"
  using endpointParamsBuilder_stores [of "Some [''a'', ''b'', ''a'']" "JNum 5"]
    endpointParamsBuilder_stores [of "Some []" JUndefined]
    endpointParamsBuilder_stores [of None "JStr ''5''"]
  by simp

section \<open>Slug extraction: what it returns\<close>

lemma js_split_not_empty: "js_split sep s \<noteq> []"
  by (induction s) (auto split: list.splits)

lemma js_split_without_sep: "sep \<notin> set s \<Longrightarrow> js_split sep s = [s]"
  by (induction s) (auto split: list.splits)

lemma hd_js_split: "hd (js_split sep s) = takeWhile (\<lambda>c. c \<noteq> sep) s"
  by (induction s) (auto split: list.splits simp: js_split_not_empty)

lemma slugExtractor_leading_slash:
  assumes "new_URL l = Some (CHR ''/'' # rest)"
  shows "slugExtractor new_URL l = Inr (Some (takeWhile (\<lambda>c. c \<noteq> CHR ''/'') rest))"
  using assms hd_js_split [of "CHR ''/''" rest] js_split_not_empty [of "CHR ''/''" rest]
  by (cases "js_split CHR ''/'' rest") (auto simp: slugExtractor_def at_index_def)

lemma slugExtractor_no_slash:
  "new_URL l = Some p \<Longrightarrow> CHR ''/'' \<notin> set p \<Longrightarrow> slugExtractor new_URL l = Inr None"
  by (simp add: slugExtractor_def at_index_def js_split_without_sep)

text \<open>
  C7, as the code has it. \<open>slugExtractor\<close> raises exactly when the link is not a valid
  absolute URL. When the link parses and its path starts with \<^verbatim>\<open>/\<close>, as the path of
  every \<^verbatim>\<open>http\<close> and \<^verbatim>\<open>https\<close> URL does, the result is the first path segment:
  what stands between the leading \<^verbatim>\<open>/\<close> and the next one. When the path has no
  \<^verbatim>\<open>/\<close> at all, the result is \<^verbatim>\<open>undefined\<close>, and nothing is raised.
\<close>

theorem slugExtractor_first_segment:
  "((\<exists>e. slugExtractor new_URL l = Inl e) = (new_URL l = None))
   \<and> (\<forall>rest. new_URL l = Some (CHR ''/'' # rest) \<longrightarrow>
         slugExtractor new_URL l = Inr (Some (takeWhile (\<lambda>c. c \<noteq> CHR ''/'') rest)))
   \<and> (\<forall>p. new_URL l = Some p \<and> CHR ''/'' \<notin> set p \<longrightarrow> slugExtractor new_URL l = Inr None)"
proof (intro conjI allI impI)
  show "(\<exists>e. slugExtractor new_URL l = Inl e) = (new_URL l = None)"
    by (auto simp: slugExtractor_def split: option.splits)
next
  fix rest assume "new_URL l = Some (CHR ''/'' # rest)"
  then show "slugExtractor new_URL l = Inr (Some (takeWhile (\<lambda>c. c \<noteq> CHR ''/'') rest))"
    by (rule slugExtractor_leading_slash)
next
  fix p assume "new_URL l = Some p \<and> CHR ''/'' \<notin> set p"
  then show "slugExtractor new_URL l = Inr None"
    by (simp add: slugExtractor_no_slash)
qed

theorem slugExtractor_first_segment_witness:
  "slugExtractor sample_url_pathname ''https://example.com/my-post/'' = Inr (Some ''my-post'')
   \<and> (\<exists>e. slugExtractor sample_url_pathname ''not a url'' = Inl e)
   \<and> slugExtractor sample_url_pathname ''mailto:a@b.c'' = Inr None"
proof -
  have a: "sample_url_pathname ''https://example.com/my-post/'' = Some (CHR ''/'' # ''my-post/'')"
    by (simp add: sample_url_pathname_def)
  have b: "sample_url_pathname ''not a url'' = None"
    by (simp add: sample_url_pathname_def)
  have c: "sample_url_pathname ''mailto:a@b.c'' = Some ''a@b.c'' \<and> CHR ''/'' \<notin> set ''a@b.c''"
    by (simp add: sample_url_pathname_def)
  show ?thesis
    using a b c
      slugExtractor_first_segment [of sample_url_pathname "''https://example.com/my-post/''"]
      slugExtractor_first_segment [of sample_url_pathname "''not a url''"]
      slugExtractor_first_segment [of sample_url_pathname "''mailto:a@b.c''"]
    by simp
qed

text \<open>
  C7 as the specification words it fails on a valid absolute URL whose path does not
  start with \<^verbatim>\<open>/\<close>: \<^verbatim>\<open>new URL("mailto:a@b.c").pathname\<close> is \<^verbatim>\<open>"a@b.c"\<close>, and the
  code returns \<^verbatim>\<open>undefined\<close>, no path segment.
\<close>

theorem slugExtractor_mailto_counterexample:
  "sample_url_pathname ''mailto:a@b.c'' = Some ''a@b.c''
   \<and> slugExtractor sample_url_pathname ''mailto:a@b.c'' = Inr None"
  by (simp add: slugExtractor_def sample_url_pathname_def at_index_def)

section \<open>The store only grows\<close>

lemma deref_append: "a < length h \<Longrightarrow> deref (h @ ext) a = deref h a"
  by (simp add: deref_def nth_append)

lemma deref_Some_less: "deref h a = Some p \<Longrightarrow> a < length h"
  by (simp add: deref_def split: if_splits)

lemma deref_append_Some: "deref h a = Some p \<Longrightarrow> deref (h @ ext) a = Some p"
  using deref_append [of a h ext] deref_Some_less [of h a p] by simp

text \<open>
  A callback that only allocates and always fulfils: so does the whole map, and a
  relation between a post and its result that holds at each step holds along the list.
\<close>

lemma map_async_rel:
  assumes step: "\<And>ext a. \<exists>ext' r. f (h0 @ ext) a = (h0 @ ext', Inr r) \<and> Q a r"
  shows "\<exists>ext' vs. map_async f (h0 @ ext) xs = (h0 @ ext', map Inr vs) \<and> list_all2 Q xs vs"
proof (induction xs arbitrary: ext)
  case Nil
  show ?case by (rule exI [of _ ext], rule exI [of _ "[]"]) simp
next
  case (Cons a xs)
  obtain e1 r where r: "f (h0 @ ext) a = (h0 @ e1, Inr r)" "Q a r"
    using step by blast
  obtain e2 vs where vs: "map_async f (h0 @ e1) xs = (h0 @ e2, map Inr vs)" "list_all2 Q xs vs"
    using Cons.IH by blast
  show ?case
    by (rule exI [of _ e2], rule exI [of _ "r # vs"]) (simp add: r vs)
qed

lemma map_async_unchanged:
  assumes "\<forall>a \<in> set xs. f h a = (h, Inr (g a))"
  shows "map_async f h xs = (h, map (\<lambda>a. Inr (g a)) xs)"
  using assms by (induction xs) auto

lemma promise_all_fulfilled: "promise_all (map Inr vs) = Inr vs"
  by (induction vs) auto

lemma promise_all_fulfilled_map: "promise_all (map (\<lambda>a. Inr (g a)) xs) = Inr (map g xs)"
  by (induction xs) auto

section \<open>The redirect resolver: one post\<close>

lemma redirect_item_dangling: "deref h a = None \<Longrightarrow> redirect_item E h a = (h, Inr (One a))"
  by (simp add: redirect_item_def redirect_try_def)

lemma redirect_item_bad_link:
  "deref h a = Some p \<Longrightarrow> slugExtractor (url_pathname E) (link p) = Inl e
   \<Longrightarrow> redirect_try E h a = (h, Inl e) \<and> redirect_item E h a = (h, Inr (One a))"
  by (simp add: redirect_item_def redirect_try_def)

lemma redirect_item_same_slug:
  "deref h a = Some p \<Longrightarrow> slugExtractor (url_pathname E) (link p) = Inr (Some (slug p))
   \<Longrightarrow> redirect_item E h a = (h, Inr (One a))"
  by (simp add: redirect_item_def redirect_try_def)

lemma redirect_item_rejected:
  "deref h a = Some p \<Longrightarrow> slugExtractor (url_pathname E) (link p) = Inr s
   \<Longrightarrow> s \<noteq> Some (slug p) \<Longrightarrow> fetchPageBySlug E s = Inl e
   \<Longrightarrow> redirect_try E h a = (h, Inl e) \<and> redirect_item E h a = (h, Inr (One a))"
  by (auto simp add: redirect_item_def redirect_try_def)

lemma redirect_item_empty:
  "deref h a = Some p \<Longrightarrow> slugExtractor (url_pathname E) (link p) = Inr s
   \<Longrightarrow> s \<noteq> Some (slug p) \<Longrightarrow> fetchPageBySlug E s = Inr []
   \<Longrightarrow> redirect_item E h a = (h, Inr (Many []))"
  by (auto simp add: redirect_item_def redirect_try_def)

lemma upt_update_0: "0 < n \<Longrightarrow> [m ..< m + n][0 := v] = v # [Suc m ..< m + n]"
  by (cases n) (simp_all add: upt_conv_Cons)

lemma redirect_item_found:
  assumes "deref h a = Some p" "slugExtractor (url_pathname E) (link p) = Inr s"
    "s \<noteq> Some (slug p)" "fetchPageBySlug E s = Inr (q # qs)"
  shows "redirect_item E h a =
      (h @ (q # qs) @ [merge_fields p q],
       Inr (Many ((length h + Suc (length qs)) # [Suc (length h) ..< length h + Suc (length qs)])))"
proof -
  have "[length h ..< length h + Suc (length qs)][0 := length h + Suc (length qs)]
      = (length h + Suc (length qs)) # [Suc (length h) ..< length h + Suc (length qs)]"
    by (rule upt_update_0) simp
  then show ?thesis using assms
    by (auto simp add: redirect_item_def redirect_try_def Let_def nth_append upt_conv_Cons)
qed

lemma redirect_try_raises:
  "redirect_try E h a = (h', Inl e) \<Longrightarrow> h' = h \<and> redirect_item E h a = (h, Inr (One a))"
  by (auto simp: redirect_item_def redirect_try_def Let_def split: option.splits sum.splits if_splits)

lemma redirect_item_cases:
  obtains (keep) "redirect_item E h a = (h, Inr (One a))"
  | (gone) p s where "deref h a = Some p" "slugExtractor (url_pathname E) (link p) = Inr s"
      "s \<noteq> Some (slug p)" "fetchPageBySlug E s = Inr []"
      "redirect_item E h a = (h, Inr (Many []))"
  | (found) p s q qs where "deref h a = Some p" "slugExtractor (url_pathname E) (link p) = Inr s"
      "s \<noteq> Some (slug p)" "fetchPageBySlug E s = Inr (q # qs)"
      "redirect_item E h a =
        (h @ (q # qs) @ [merge_fields p q],
         Inr (Many ((length h + Suc (length qs)) # [Suc (length h) ..< length h + Suc (length qs)])))"
proof (cases "deref h a")
  case None
  then show ?thesis using keep redirect_item_dangling by blast
next
  case (Some p)
  show ?thesis
  proof (cases "slugExtractor (url_pathname E) (link p)")
    case (Inl e)
    then show ?thesis using Some keep redirect_item_bad_link by blast
  next
    case slug: (Inr s)
    show ?thesis
    proof (cases "s = Some (slug p)")
      case True
      then show ?thesis using Some slug keep redirect_item_same_slug by blast
    next
      case False
      show ?thesis
      proof (cases "fetchPageBySlug E s")
        case (Inl e)
        then show ?thesis using Some slug False keep redirect_item_rejected by blast
      next
        case fetched: (Inr qs)
        show ?thesis
        proof (cases qs)
          case Nil
          then show ?thesis using Some slug False fetched gone redirect_item_empty by blast
        next
          case (Cons q qs')
          then show ?thesis
            using Some slug False fetched found [of p s q qs'] redirect_item_found by blast
        qed
      qed
    qed
  qed
qed

text \<open>Whether a post is kept depends on the object at its address only.\<close>

lemma kept_same_object:
  "deref h1 a = deref h2 a \<Longrightarrow>
   (snd (redirect_item E h1 a) = Inr (One a)) = (snd (redirect_item E h2 a) = Inr (One a))"
  by (auto simp: redirect_item_def redirect_try_def Let_def split: option.splits sum.splits)

lemma kept_stable: "a < length h0 \<Longrightarrow> kept E (h0 @ ext) a = kept E h0 a"
  using kept_same_object [of "h0 @ ext" a h0 E] by (simp add: kept_def deref_append)

lemma redirect_item_rel:
  "\<exists>ext' r. redirect_item E (h0 @ ext) a = (h0 @ ext', Inr r) \<and> item_rel E h0 a r"
proof (cases rule: redirect_item_cases [of E "h0 @ ext" a])
  case keep
  have "item_rel E h0 a (One a)"
  proof (cases "a < length h0")
    case True
    then have "kept E h0 a" using keep kept_stable [of a h0 E ext] by (simp add: kept_def)
    then show ?thesis by (simp add: item_rel_def chunk_def)
  next
    case False
    then show ?thesis by (simp add: item_rel_def chunk_def kept_def)
  qed
  then show ?thesis using keep by blast
next
  case (gone p s)
  then have "\<not> kept E (h0 @ ext) a" by (simp add: kept_def)
  then have "\<not> kept E h0 a" using kept_stable [of a h0 E ext] by (auto simp: kept_def)
  then have "item_rel E h0 a (Many [])" by (simp add: item_rel_def chunk_def)
  then show ?thesis using gone(5) by blast
next
  case (found p s q qs)
  then have "\<not> kept E (h0 @ ext) a" by (simp add: kept_def)
  then have "\<not> kept E h0 a" using kept_stable [of a h0 E ext] by (auto simp: kept_def)
  then have "item_rel E h0 a
     (Many ((length (h0 @ ext) + Suc (length qs))
              # [Suc (length (h0 @ ext)) ..< length (h0 @ ext) + Suc (length qs)]))"
    by (auto simp add: item_rel_def chunk_def)
  moreover have "(h0 @ ext) @ (q # qs) @ [merge_fields p q]
      = h0 @ (ext @ (q # qs) @ [merge_fields p q])"
    by simp
  ultimately show ?thesis using found(5) by metis
qed

section \<open>The redirect resolver: the batch\<close>

text \<open>
  The batch never rejects and the store only grows. A kept post is in the output;
  whatever else is in the output was allocated during the call.
\<close>

lemma detectRedirects_shape:
  "\<exists>ext out. detectRedirects E h posts = (h @ ext, Inr out)
     \<and> (\<forall>a \<in> set posts. kept E h a \<longrightarrow> a \<in> set out)
     \<and> (\<forall>x \<in> set out. length h \<le> x \<or> (x \<in> set posts \<and> kept E h x))"
proof -
  have "\<exists>ext' vs. map_async (redirect_item E) (h @ []) posts = (h @ ext', map Inr vs)
      \<and> list_all2 (item_rel E h) posts vs"
    by (rule map_async_rel) (rule redirect_item_rel)
  then obtain ext vs where m: "map_async (redirect_item E) h posts = (h @ ext, map Inr vs)"
      and rel: "list_all2 (item_rel E h) posts vs"
    by auto
  have d: "detectRedirects E h posts = (h @ ext, Inr (flat vs))"
    using m by (simp add: detectRedirects_def promise_all_fulfilled)
  have k: "\<forall>a \<in> set posts. kept E h a \<longrightarrow> a \<in> set (flat vs)"
  proof (intro ballI impI)
    fix a assume "a \<in> set posts" "kept E h a"
    then obtain i where i: "i < length posts" "posts ! i = a" by (auto simp: in_set_conv_nth)
    then have "item_rel E h a (vs ! i)" using rel by (auto simp: list_all2_conv_all_nth)
    then have "vs ! i = One a" using \<open>kept E h a\<close> by (simp add: item_rel_def)
    moreover have "i < length vs" using i rel by (simp add: list_all2_lengthD)
    ultimately have "One a \<in> set vs" by (metis nth_mem)
    then show "a \<in> set (flat vs)" by (force simp: flat_def chunk_def)
  qed
  have f: "\<forall>x \<in> set (flat vs). length h \<le> x \<or> (x \<in> set posts \<and> kept E h x)"
  proof
    fix x assume "x \<in> set (flat vs)"
    then obtain r where r: "r \<in> set vs" "x \<in> set (chunk r)" by (auto simp: flat_def)
    then obtain i where i: "i < length vs" "vs ! i = r" by (auto simp: in_set_conv_nth)
    then have "item_rel E h (posts ! i) r" using rel by (auto simp: list_all2_conv_all_nth)
    then have "length h \<le> x \<or> (x = posts ! i \<and> kept E h x)" using r by (auto simp: item_rel_def)
    moreover have "posts ! i \<in> set posts" using i rel by (simp add: list_all2_lengthD)
    ultimately show "length h \<le> x \<or> (x \<in> set posts \<and> kept E h x)" by auto
  qed
  show ?thesis using d k f by blast
qed

lemma detectRedirects_all_kept:
  assumes "\<forall>a \<in> set posts. redirect_item E h a = (h, Inr (One a))"
  shows "detectRedirects E h posts = (h, Inr posts)"
proof -
  have "map_async (redirect_item E) h posts = (h, map (\<lambda>a. Inr (One a)) posts)"
    using assms by (rule map_async_unchanged)
  moreover have "flat (map One posts) = posts"
    by (induction posts) (simp_all add: flat_def chunk_def)
  ultimately show ?thesis
    by (simp add: detectRedirects_def promise_all_fulfilled_map)
qed

text \<open>
  C1, as the code has it. When the stored slug differs from the slug of the link and the
  by-slug lookup fulfils with an empty array, the callback returns that empty array and
  \<^verbatim>\<open>flat()\<close> splices it away: the post is dropped from the output (the output has no
  entry for it), and the post itself is not modified. The batch does not reject.
\<close>

theorem detectRedirects_zero_results_dropped:
  "(\<exists>h' out. detectRedirects E h posts = (h', Inr out)
      \<and> (\<forall>a \<in> set posts. \<forall>p s.
            deref h a = Some p \<and> slugExtractor (url_pathname E) (link p) = Inr s
            \<and> s \<noteq> Some (slug p) \<and> fetchPageBySlug E s = Inr []
            \<longrightarrow> a \<notin> set out \<and> deref h' a = Some p))
   \<and> (\<forall>a p s.
          deref h a = Some p \<and> slugExtractor (url_pathname E) (link p) = Inr s
          \<and> s \<noteq> Some (slug p) \<and> fetchPageBySlug E s = Inr []
          \<longrightarrow> detectRedirects E h [a] = (h, Inr []))"
proof (rule conjI)
  obtain ext out where d: "detectRedirects E h posts = (h @ ext, Inr out)"
    and f: "\<forall>x \<in> set out. length h \<le> x \<or> (x \<in> set posts \<and> kept E h x)"
    using detectRedirects_shape by blast
  have "a \<notin> set out \<and> deref (h @ ext) a = Some p"
    if "deref h a = Some p" "slugExtractor (url_pathname E) (link p) = Inr s"
      "s \<noteq> Some (slug p)" "fetchPageBySlug E s = Inr []" for a p s
  proof -
    have "redirect_item E h a = (h, Inr (Many []))" using that by (rule redirect_item_empty)
    then have "\<not> kept E h a" by (simp add: kept_def)
    moreover have "a < length h" using that(1) by (rule deref_Some_less)
    ultimately have "a \<notin> set out" using f by auto
    then show ?thesis using that(1) by (simp add: deref_append_Some)
  qed
  then show "\<exists>h' out. detectRedirects E h posts = (h', Inr out)
      \<and> (\<forall>a \<in> set posts. \<forall>p s.
            deref h a = Some p \<and> slugExtractor (url_pathname E) (link p) = Inr s
            \<and> s \<noteq> Some (slug p) \<and> fetchPageBySlug E s = Inr []
            \<longrightarrow> a \<notin> set out \<and> deref h' a = Some p)"
    using d by blast
next
  show "\<forall>a p s.
          deref h a = Some p \<and> slugExtractor (url_pathname E) (link p) = Inr s
          \<and> s \<noteq> Some (slug p) \<and> fetchPageBySlug E s = Inr []
          \<longrightarrow> detectRedirects E h [a] = (h, Inr [])"
    by (auto simp: detectRedirects_def redirect_item_empty flat_def chunk_def)
qed

theorem detectRedirects_zero_results_dropped_witness:
  "detectRedirects (sample_env lookup_none media_down) [resolved_post, original_post] [0, 1]
     = ([resolved_post, original_post], Inr [0])
   \<and> detectRedirects (sample_env lookup_none media_down) [resolved_post, original_post] [1]
     = ([resolved_post, original_post], Inr [])"
proof -
  let ?E = "sample_env lookup_none media_down"
  let ?h = "[resolved_post, original_post]"
  have p: "deref ?h 1 = Some original_post
      \<and> slugExtractor (url_pathname ?E) (link original_post) = Inr (Some ''new'')
      \<and> Some ''new'' \<noteq> Some (slug original_post) \<and> fetchPageBySlug ?E (Some ''new'') = Inr []"
    by (simp add: deref_def sample_env_def slugExtractor_def sample_url_pathname_def
        original_post_def at_index_def lookup_none_def)
  have "detectRedirects ?E ?h [1] = (?h, Inr [])"
    using p detectRedirects_zero_results_dropped [of ?E ?h "[1]"] by blast
  moreover have "detectRedirects ?E ?h [0, 1] = (?h, Inr [0])"
    by (simp add: detectRedirects_def redirect_item_def redirect_try_def deref_def
        sample_env_def slugExtractor_def sample_url_pathname_def original_post_def
        resolved_post_def at_index_def lookup_none_def flat_def chunk_def)
  ultimately show ?thesis by simp
qed

text \<open>
  C1 as the specification words it: the slug of \<open>original_post\<close> is \<^verbatim>\<open>old\<close>, its link
  gives \<^verbatim>\<open>new\<close>, the lookup fulfils with no result, and the output is empty: the post
  is not kept.
\<close>

theorem detectRedirects_zero_results_counterexample:
  "slug original_post = ''old''
   \<and> slugExtractor sample_url_pathname (link original_post) = Inr (Some ''new'')
   \<and> lookup_none (Some ''new'') = Inr []
   \<and> detectRedirects (sample_env lookup_none media_down) [original_post] [0]
       = ([original_post], Inr [])"
  by (simp add: detectRedirects_def redirect_item_def redirect_try_def deref_def
      sample_env_def slugExtractor_def sample_url_pathname_def original_post_def
      at_index_def lookup_none_def flat_def chunk_def)

text \<open>
  C2, as the code has it. When the by-slug lookup gives at least one result, the first
  entry of the output is a new object: the first fetched result with three fields given
  anew. \<^verbatim>\<open>categories\<close> and \<^verbatim>\<open>image\<close> are the original post's, and \<^verbatim>\<open>title\<close> is a
  new object whose only field is \<^verbatim>\<open>rendered\<close>, the original's. Every other top-level
  field of the fetched result is as fetched; the other results follow as fetched, and the
  original post is not modified.
\<close>

theorem detectRedirects_merge:
  "\<forall>p s q qs.
     deref h a = Some p \<and> slugExtractor (url_pathname E) (link p) = Inr s
     \<and> s \<noteq> Some (slug p) \<and> fetchPageBySlug E s = Inr (q # qs)
     \<longrightarrow> (\<exists>h' m ms r.
            redirect_item E h a = (h', Inr (Many (m # ms)))
          \<and> detectRedirects E h [a] = (h', Inr (m # ms))
          \<and> length h \<le> m \<and> deref h' m = Some r
          \<and> categories r = categories p
          \<and> image_field r = image_field p
          \<and> title r = \<lparr>rendered = rendered (title p), title_other = []\<rparr>
          \<and> slug r = slug q \<and> link r = link q
          \<and> featured_media r = featured_media q \<and> other_fields r = other_fields q
          \<and> map (deref h') ms = map Some qs
          \<and> deref h' a = Some p)"
proof (intro allI impI)
  fix p s q qs
  assume asm: "deref h a = Some p \<and> slugExtractor (url_pathname E) (link p) = Inr s
     \<and> s \<noteq> Some (slug p) \<and> fetchPageBySlug E s = Inr (q # qs)"
  let ?h' = "h @ (q # qs) @ [merge_fields p q]"
  let ?m = "length h + Suc (length qs)"
  let ?ms = "[Suc (length h) ..< length h + Suc (length qs)]"
  have item: "redirect_item E h a = (?h', Inr (Many (?m # ?ms)))"
    using asm redirect_item_found [of h a p E s q qs] by blast
  have batch: "detectRedirects E h [a] = (?h', Inr (?m # ?ms))"
    using item by (simp add: detectRedirects_def flat_def chunk_def)
  have m: "deref ?h' ?m = Some (merge_fields p q)"
    by (simp add: deref_def nth_append)
  have "map (deref ?h') ?ms = map Some qs"
  proof (rule nth_equalityI)
    show "length (map (deref ?h') ?ms) = length (map Some qs)" by (simp del: upt_Suc)
  next
    fix i assume "i < length (map (deref ?h') ?ms)"
    then have i: "i < length qs" by (simp del: upt_Suc)
    then have "?ms ! i = Suc (length h) + i" by (simp del: upt_Suc)
    then show "map (deref ?h') ?ms ! i = map Some qs ! i"
      using i by (simp add: deref_def nth_append del: upt_Suc)
  qed
  moreover have "deref ?h' a = Some p" using asm by (simp add: deref_append_Some)
  ultimately show "\<exists>h' m ms r.
            redirect_item E h a = (h', Inr (Many (m # ms)))
          \<and> detectRedirects E h [a] = (h', Inr (m # ms))
          \<and> length h \<le> m \<and> deref h' m = Some r
          \<and> categories r = categories p
          \<and> image_field r = image_field p
          \<and> title r = \<lparr>rendered = rendered (title p), title_other = []\<rparr>
          \<and> slug r = slug q \<and> link r = link q
          \<and> featured_media r = featured_media q \<and> other_fields r = other_fields q
          \<and> map (deref h') ms = map Some qs
          \<and> deref h' a = Some p"
    using item batch m
    by (intro exI [of _ ?h'] exI [of _ ?m] exI [of _ ?ms] exI [of _ "merge_fields p q"])
       (simp add: merge_fields_def)
qed

text \<open>The scenario of the specification: the target's identity, the original's display fields.\<close>

theorem detectRedirects_merge_witness:
  "detectRedirects (sample_env lookup_target media_down) [original_post] [0]
     = ([original_post, target_post,
         \<lparr>slug = ''new'', link = ''https://x/new/'', categories = [1],
          image_field = JStr ''i.jpg'', title = \<lparr>rendered = ''T'', title_other = []\<rparr>,
          featured_media = 7, other_fields = [(''id'', JNum 42)]\<rparr>],
        Inr [2])"
proof -
  let ?E = "sample_env lookup_target media_down"
  have p: "deref [original_post] 0 = Some original_post
      \<and> slugExtractor (url_pathname ?E) (link original_post) = Inr (Some ''new'')
      \<and> Some ''new'' \<noteq> Some (slug original_post)
      \<and> fetchPageBySlug ?E (Some ''new'') = Inr (target_post # [])"
    by (simp add: deref_def sample_env_def slugExtractor_def sample_url_pathname_def
        original_post_def at_index_def lookup_target_def)
  obtain h' m ms r where r: "redirect_item ?E [original_post] 0 = (h', Inr (Many (m # ms)))"
      "detectRedirects ?E [original_post] [0] = (h', Inr (m # ms))"
    using p detectRedirects_merge [of "[original_post]" 0 ?E] by blast
  have "redirect_item ?E [original_post] 0
      = ([original_post, target_post,
         \<lparr>slug = ''new'', link = ''https://x/new/'', categories = [1],
          image_field = JStr ''i.jpg'', title = \<lparr>rendered = ''T'', title_other = []\<rparr>,
          featured_media = 7, other_fields = [(''id'', JNum 42)]\<rparr>],
        Inr (Many [2]))"
    by (simp add: redirect_item_def redirect_try_def deref_def sample_env_def
        slugExtractor_def sample_url_pathname_def original_post_def target_post_def
        at_index_def lookup_target_def merge_fields_def Let_def)
  then show ?thesis using r by simp
qed

text \<open>
  C2 as the specification words it: here the fetched result's title has a \<^verbatim>\<open>raw\<close>
  field beside \<^verbatim>\<open>rendered\<close>, and the merged object (at address 2; the fetched one is
  at address 1) has lost it.
\<close>

theorem detectRedirects_merge_title_counterexample:
  "snd (detectRedirects (sample_env lookup_target_raw media_down) [original_post] [0]) = Inr [2]
   \<and> fst (detectRedirects (sample_env lookup_target_raw media_down) [original_post] [0]) ! 1
       = target_post_raw
   \<and> title_other (title target_post_raw) = [(''raw'', JStr ''New'')]
   \<and> title_other
       (title (fst (detectRedirects (sample_env lookup_target_raw media_down) [original_post] [0]) ! 2))
       = []"
  by (simp add: detectRedirects_def redirect_item_def redirect_try_def deref_def sample_env_def
      slugExtractor_def sample_url_pathname_def original_post_def target_post_raw_def
      target_post_def at_index_def lookup_target_raw_def merge_fields_def Let_def flat_def
      chunk_def)

text \<open>
  C3. A post whose stored slug is the slug of its link comes back as the same object
  (the same address, and the object there is as it was), wherever it stands in the
  list; and on a list of such posts the resolver gives back the same store and the same
  addresses in the same order, so that a second run has the same input as the first and
  does the same.
\<close>

theorem detectRedirects_resolved_identity:
  "\<exists>h' out. detectRedirects E h posts = (h', Inr out)
     \<and> (\<forall>a \<in> set posts. \<forall>p.
           deref h a = Some p \<and> slugExtractor (url_pathname E) (link p) = Inr (Some (slug p))
           \<longrightarrow> a \<in> set out \<and> deref h' a = Some p)
     \<and> ((\<forall>a \<in> set posts. \<exists>p.
            deref h a = Some p \<and> slugExtractor (url_pathname E) (link p) = Inr (Some (slug p)))
          \<longrightarrow> h' = h \<and> out = posts \<and> detectRedirects E h' out = (h', Inr out))"
proof -
  obtain ext out where d: "detectRedirects E h posts = (h @ ext, Inr out)"
    and k: "\<forall>a \<in> set posts. kept E h a \<longrightarrow> a \<in> set out"
    using detectRedirects_shape by blast
  have one: "a \<in> set out \<and> deref (h @ ext) a = Some p"
    if "a \<in> set posts" "deref h a = Some p"
      "slugExtractor (url_pathname E) (link p) = Inr (Some (slug p))" for a p
  proof -
    have "redirect_item E h a = (h, Inr (One a))" using that(2,3) by (rule redirect_item_same_slug)
    then have "kept E h a" using that(2) by (simp add: kept_def deref_Some_less)
    then show ?thesis using k that(1,2) by (simp add: deref_append_Some)
  qed
  have all: "h @ ext = h \<and> out = posts \<and> detectRedirects E (h @ ext) out = (h @ ext, Inr out)"
    if "\<forall>a \<in> set posts. \<exists>p.
            deref h a = Some p \<and> slugExtractor (url_pathname E) (link p) = Inr (Some (slug p))"
  proof -
    have "\<forall>a \<in> set posts. redirect_item E h a = (h, Inr (One a))"
      using that redirect_item_same_slug by blast
    then have "detectRedirects E h posts = (h, Inr posts)" by (rule detectRedirects_all_kept)
    then show ?thesis using d by simp
  qed
  show ?thesis using d one all by blast
qed

theorem detectRedirects_resolved_identity_witness:
  "detectRedirects (sample_env lookup_target media_down) [resolved_post] [0, 0]
     = ([resolved_post], Inr [0, 0])
   \<and> snd (detectRedirects (sample_env lookup_target media_down) [original_post, resolved_post] [0, 1])
     = Inr [3, 1]
   \<and> fst (detectRedirects (sample_env lookup_target media_down) [original_post, resolved_post] [0, 1]) ! 1
     = resolved_post"
proof -
  let ?E = "sample_env lookup_target media_down"
  have p: "\<forall>a \<in> set [0, 0]. \<exists>p. deref [resolved_post] a = Some p
      \<and> slugExtractor (url_pathname ?E) (link p) = Inr (Some (slug p))"
    by (simp add: deref_def sample_env_def slugExtractor_def sample_url_pathname_def
        resolved_post_def at_index_def)
  have "detectRedirects ?E [resolved_post] [0, 0] = ([resolved_post], Inr [0, 0])"
    using p detectRedirects_resolved_identity [of ?E "[resolved_post]" "[0, 0]"] by auto
  moreover have "detectRedirects ?E [original_post, resolved_post] [0, 1]
      = ([original_post, resolved_post, target_post, merge_fields original_post target_post],
         Inr [3, 1])"
    by (simp add: detectRedirects_def redirect_item_def redirect_try_def deref_def sample_env_def
        slugExtractor_def sample_url_pathname_def original_post_def resolved_post_def
        at_index_def lookup_target_def Let_def flat_def chunk_def)
  ultimately show ?thesis by simp
qed

text \<open>
  The batch is the posts' callbacks one after the other: a list of posts gives the
  results of its first part followed by the results of the rest, the rest starting from
  the store the first part left.
\<close>

lemma map_async_append:
  "map_async f h (xs @ ys) =
     (case map_async f h xs of
        (h1, rs1) \<Rightarrow> (case map_async f h1 ys of (h2, rs2) \<Rightarrow> (h2, rs1 @ rs2)))"
  by (induction xs arbitrary: h) (auto split: prod.splits)

lemma detectRedirects_settled:
  "\<exists>h1 vs. map_async (redirect_item E) h xs = (h1, map Inr vs)
      \<and> detectRedirects E h xs = (h1, Inr (flat vs))"
proof -
  have "\<exists>ext' vs. map_async (redirect_item E) (h @ []) xs = (h @ ext', map Inr vs)
      \<and> list_all2 (item_rel E h) xs vs"
    by (rule map_async_rel) (rule redirect_item_rel)
  then obtain ext vs where m: "map_async (redirect_item E) h xs = (h @ ext, map Inr vs)"
    by auto
  then have "detectRedirects E h xs = (h @ ext, Inr (flat vs))"
    by (simp add: detectRedirects_def promise_all_fulfilled)
  then show ?thesis using m by blast
qed

lemma detectRedirects_append:
  "\<exists>h1 o1 h2 o2. detectRedirects E h xs = (h1, Inr o1)
      \<and> detectRedirects E h1 ys = (h2, Inr o2)
      \<and> detectRedirects E h (xs @ ys) = (h2, Inr (o1 @ o2))"
proof -
  obtain h1 vs1 where x: "map_async (redirect_item E) h xs = (h1, map Inr vs1)"
      "detectRedirects E h xs = (h1, Inr (flat vs1))"
    using detectRedirects_settled by blast
  obtain h2 vs2 where y: "map_async (redirect_item E) h1 ys = (h2, map Inr vs2)"
      "detectRedirects E h1 ys = (h2, Inr (flat vs2))"
    using detectRedirects_settled by blast
  have "map_async (redirect_item E) h (xs @ ys) = (h2, map Inr (vs1 @ vs2))"
    by (simp add: map_async_append x(1) y(1))
  then have "detectRedirects E h (xs @ ys) = (h2, Inr (flat (vs1 @ vs2)))"
    by (simp add: detectRedirects_def promise_all_fulfilled del: map_append)
  moreover have "flat (vs1 @ vs2) = flat vs1 @ flat vs2"
    by (simp add: flat_def)
  ultimately show ?thesis using x(2) y(2) by auto
qed

lemma detectRedirects_single:
  "\<exists>h1 r. redirect_item E h b = (h1, Inr r) \<and> detectRedirects E h [b] = (h1, Inr (chunk r))"
  by (cases rule: redirect_item_cases [of E h b])
     (simp_all add: detectRedirects_def flat_def)

lemma redirect_item_raising_stable:
  assumes "deref h a = Some p" "snd (redirect_try E h a) = Inl e"
  shows "redirect_item E (h @ ext) a = (h @ ext, Inr (One a))"
proof -
  have "redirect_try E h a = (fst (redirect_try E h a), Inl e)"
    using assms(2) by (metis prod.collapse)
  then have "redirect_item E h a = (h, Inr (One a))" using redirect_try_raises by blast
  then have "kept E h a" using assms(1) by (simp add: kept_def deref_Some_less)
  then have "kept E (h @ ext) a"
    using kept_stable [of a h E ext] assms(1) by (simp add: deref_Some_less)
  then have "snd (redirect_item E (h @ ext) a) = Inr (One a)" by (simp add: kept_def)
  then show ?thesis
    by (cases rule: redirect_item_cases [of E "h @ ext" a]) simp_all
qed

text \<open>
  C4. Whatever is raised while one post is processed is caught: the callback returns
  the post and leaves the store as it was. So the batch never rejects, and a post whose
  link is not a URL or whose by-slug lookup rejects is in the output, as the same
  object. It stands there between the results of the posts before it and the results of
  the posts after it, and these are the results the batch gives without that post: every
  other post goes through its own callback, and a neighbour that redirects is merged
  as ever.
\<close>

theorem detectRedirects_catches:
  "(\<exists>h' out. detectRedirects E h posts = (h', Inr out)
      \<and> (\<forall>a \<in> set posts. \<forall>p.
            deref h a = Some p \<and> (\<exists>e. snd (redirect_try E h a) = Inl e)
            \<longrightarrow> a \<in> set out \<and> deref h' a = Some p)
      \<and> (\<forall>b \<in> set posts. \<forall>p.
            deref h b = Some p \<and> slugExtractor (url_pathname E) (link p) = Inr (Some (slug p))
            \<longrightarrow> b \<in> set out \<and> deref h' b = Some p))
   \<and> (\<forall>h1 a h2 e. redirect_try E h1 a = (h2, Inl e)
         \<longrightarrow> h2 = h1 \<and> redirect_item E h1 a = (h1, Inr (One a)))
   \<and> (\<forall>a p. deref h a = Some p \<and> slugExtractor (url_pathname E) (link p) = Inl TypeError
         \<longrightarrow> redirect_try E h a = (h, Inl TypeError))
   \<and> (\<forall>a p s e. deref h a = Some p \<and> slugExtractor (url_pathname E) (link p) = Inr s
           \<and> s \<noteq> Some (slug p) \<and> fetchPageBySlug E s = Inl e
         \<longrightarrow> redirect_try E h a = (h, Inl e))
   \<and> (\<forall>xs a ys p. deref h a = Some p \<and> (\<exists>e. snd (redirect_try E h a) = Inl e)
         \<longrightarrow> (\<exists>h1 o1 h2 o2.
                detectRedirects E h xs = (h1, Inr o1)
              \<and> detectRedirects E h1 ys = (h2, Inr o2)
              \<and> detectRedirects E h (xs @ a # ys) = (h2, Inr (o1 @ a # o2))
              \<and> detectRedirects E h (xs @ ys) = (h2, Inr (o1 @ o2))))
   \<and> (\<forall>xs ys. \<exists>h1 o1 h2 o2.
           detectRedirects E h xs = (h1, Inr o1)
         \<and> detectRedirects E h1 ys = (h2, Inr o2)
         \<and> detectRedirects E h (xs @ ys) = (h2, Inr (o1 @ o2)))
   \<and> (\<forall>b. \<exists>h1 r. redirect_item E h b = (h1, Inr r)
         \<and> detectRedirects E h [b] = (h1, Inr (chunk r)))
   \<and> (\<forall>b p s q qs. deref h b = Some p \<and> slugExtractor (url_pathname E) (link p) = Inr s
           \<and> s \<noteq> Some (slug p) \<and> fetchPageBySlug E s = Inr (q # qs)
         \<longrightarrow> detectRedirects E h [b] =
               (h @ (q # qs) @ [merge_fields p q],
                Inr ((length h + Suc (length qs))
                       # [Suc (length h) ..< length h + Suc (length qs)])))"
proof (intro conjI)
  obtain ext out where d: "detectRedirects E h posts = (h @ ext, Inr out)"
    and k: "\<forall>a \<in> set posts. kept E h a \<longrightarrow> a \<in> set out"
    using detectRedirects_shape by blast
  have raised: "a \<in> set out \<and> deref (h @ ext) a = Some p"
    if "a \<in> set posts" "deref h a = Some p" "snd (redirect_try E h a) = Inl e" for a p e
  proof -
    have "redirect_try E h a = (fst (redirect_try E h a), Inl e)"
      using that(3) by (metis prod.collapse)
    then have "redirect_item E h a = (h, Inr (One a))" using redirect_try_raises by blast
    then have "kept E h a" using that(2) by (simp add: kept_def deref_Some_less)
    then show ?thesis using k that(1,2) by (simp add: deref_append_Some)
  qed
  have same: "b \<in> set out \<and> deref (h @ ext) b = Some p"
    if "b \<in> set posts" "deref h b = Some p"
      "slugExtractor (url_pathname E) (link p) = Inr (Some (slug p))" for b p
  proof -
    have "redirect_item E h b = (h, Inr (One b))" using that(2,3) by (rule redirect_item_same_slug)
    then have "kept E h b" using that(2) by (simp add: kept_def deref_Some_less)
    then show ?thesis using k that(1,2) by (simp add: deref_append_Some)
  qed
  show "\<exists>h' out. detectRedirects E h posts = (h', Inr out)
      \<and> (\<forall>a \<in> set posts. \<forall>p.
            deref h a = Some p \<and> (\<exists>e. snd (redirect_try E h a) = Inl e)
            \<longrightarrow> a \<in> set out \<and> deref h' a = Some p)
      \<and> (\<forall>b \<in> set posts. \<forall>p.
            deref h b = Some p \<and> slugExtractor (url_pathname E) (link p) = Inr (Some (slug p))
            \<longrightarrow> b \<in> set out \<and> deref h' b = Some p)"
    using d raised same by blast
next
  show "\<forall>h1 a h2 e. redirect_try E h1 a = (h2, Inl e)
         \<longrightarrow> h2 = h1 \<and> redirect_item E h1 a = (h1, Inr (One a))"
    using redirect_try_raises by blast
next
  show "\<forall>a p. deref h a = Some p \<and> slugExtractor (url_pathname E) (link p) = Inl TypeError
         \<longrightarrow> redirect_try E h a = (h, Inl TypeError)"
    using redirect_item_bad_link by blast
next
  show "\<forall>a p s e. deref h a = Some p \<and> slugExtractor (url_pathname E) (link p) = Inr s
           \<and> s \<noteq> Some (slug p) \<and> fetchPageBySlug E s = Inl e
         \<longrightarrow> redirect_try E h a = (h, Inl e)"
    using redirect_item_rejected by blast
next
  show "\<forall>xs a ys p. deref h a = Some p \<and> (\<exists>e. snd (redirect_try E h a) = Inl e)
         \<longrightarrow> (\<exists>h1 o1 h2 o2.
                detectRedirects E h xs = (h1, Inr o1)
              \<and> detectRedirects E h1 ys = (h2, Inr o2)
              \<and> detectRedirects E h (xs @ a # ys) = (h2, Inr (o1 @ a # o2))
              \<and> detectRedirects E h (xs @ ys) = (h2, Inr (o1 @ o2)))"
  proof (intro allI impI)
    fix xs a ys p
    assume asm: "deref h a = Some p \<and> (\<exists>e. snd (redirect_try E h a) = Inl e)"
    then obtain e where e: "snd (redirect_try E h a) = Inl e" by blast
    obtain ext o1 where x: "detectRedirects E h xs = (h @ ext, Inr o1)"
      using detectRedirects_shape by blast
    have item: "redirect_item E (h @ ext) a = (h @ ext, Inr (One a))"
      using asm e by (simp add: redirect_item_raising_stable)
    have one: "detectRedirects E (h @ ext) [a] = (h @ ext, Inr [a])"
      using item by (simp add: detectRedirects_def flat_def chunk_def)
    obtain h2 o2 where y: "detectRedirects E (h @ ext) ys = (h2, Inr o2)"
      using detectRedirects_shape by blast
    have ay: "detectRedirects E (h @ ext) (a # ys) = (h2, Inr (a # o2))"
      using detectRedirects_append [of E "h @ ext" "[a]" ys] one y by simp
    have "detectRedirects E h (xs @ a # ys) = (h2, Inr (o1 @ a # o2))"
      using detectRedirects_append [of E h xs "a # ys"] x ay by simp
    moreover have "detectRedirects E h (xs @ ys) = (h2, Inr (o1 @ o2))"
      using detectRedirects_append [of E h xs ys] x y by simp
    ultimately show "\<exists>h1 o1 h2 o2.
                detectRedirects E h xs = (h1, Inr o1)
              \<and> detectRedirects E h1 ys = (h2, Inr o2)
              \<and> detectRedirects E h (xs @ a # ys) = (h2, Inr (o1 @ a # o2))
              \<and> detectRedirects E h (xs @ ys) = (h2, Inr (o1 @ o2))"
      using x y by blast
  qed
next
  show "\<forall>xs ys. \<exists>h1 o1 h2 o2.
           detectRedirects E h xs = (h1, Inr o1)
         \<and> detectRedirects E h1 ys = (h2, Inr o2)
         \<and> detectRedirects E h (xs @ ys) = (h2, Inr (o1 @ o2))"
    using detectRedirects_append by blast
next
  show "\<forall>b. \<exists>h1 r. redirect_item E h b = (h1, Inr r)
         \<and> detectRedirects E h [b] = (h1, Inr (chunk r))"
    using detectRedirects_single by blast
next
  show "\<forall>b p s q qs. deref h b = Some p \<and> slugExtractor (url_pathname E) (link p) = Inr s
           \<and> s \<noteq> Some (slug p) \<and> fetchPageBySlug E s = Inr (q # qs)
         \<longrightarrow> detectRedirects E h [b] =
               (h @ (q # qs) @ [merge_fields p q],
                Inr ((length h + Suc (length qs))
                       # [Suc (length h) ..< length h + Suc (length qs)]))"
    by (auto simp: redirect_item_found detectRedirects_def flat_def chunk_def)
qed

text \<open>
  A rejected lookup and a link that is not a URL beside a resolved post; and a post
  that redirects beside the link that is not a URL: the redirect is resolved (the merged
  object is at address 3), the other post is kept.
\<close>

theorem detectRedirects_catches_witness:
  "detectRedirects (sample_env lookup_down media_down)
       [original_post, broken_post, resolved_post] [0, 1, 2]
     = ([original_post, broken_post, resolved_post], Inr [0, 1, 2])
   \<and> redirect_try (sample_env lookup_down media_down)
       [original_post, broken_post, resolved_post] 0
     = ([original_post, broken_post, resolved_post], Inl (Rejected ''network''))
   \<and> redirect_try (sample_env lookup_down media_down)
       [original_post, broken_post, resolved_post] 1
     = ([original_post, broken_post, resolved_post], Inl TypeError)
   \<and> detectRedirects (sample_env lookup_target media_down) [original_post, broken_post] [0, 1]
     = ([original_post, broken_post, target_post, merge_fields original_post target_post],
        Inr [3, 1])
   \<and> detectRedirects (sample_env lookup_target media_down) [original_post, broken_post] [1, 0]
     = ([original_post, broken_post, target_post, merge_fields original_post target_post],
        Inr [1, 3])"
proof -
  let ?E = "sample_env lookup_down media_down"
  let ?h = "[original_post, broken_post, resolved_post]"
  have a: "deref ?h 0 = Some original_post
      \<and> slugExtractor (url_pathname ?E) (link original_post) = Inr (Some ''new'')
      \<and> Some ''new'' \<noteq> Some (slug original_post)
      \<and> fetchPageBySlug ?E (Some ''new'') = Inl (Rejected ''network'')"
    by (simp add: deref_def sample_env_def slugExtractor_def sample_url_pathname_def
        original_post_def at_index_def lookup_down_def)
  have b: "deref ?h 1 = Some broken_post
      \<and> slugExtractor (url_pathname ?E) (link broken_post) = Inl TypeError"
    by (simp add: deref_def sample_env_def slugExtractor_def sample_url_pathname_def
        broken_post_def)
  have t: "redirect_try ?E ?h 0 = (?h, Inl (Rejected ''network''))
      \<and> redirect_try ?E ?h 1 = (?h, Inl TypeError)"
    using a b detectRedirects_catches [of ?E ?h "[0, 1, 2]"] by blast
  then have "redirect_item ?E ?h 0 = (?h, Inr (One 0)) \<and> redirect_item ?E ?h 1 = (?h, Inr (One 1))"
    by (simp add: redirect_item_def)
  moreover have "redirect_item ?E ?h 2 = (?h, Inr (One 2))"
    by (simp add: redirect_item_def redirect_try_def deref_def sample_env_def slugExtractor_def
        sample_url_pathname_def resolved_post_def at_index_def)
  ultimately have first: "detectRedirects ?E ?h [0, 1, 2] = (?h, Inr [0, 1, 2])"
    by (simp add: detectRedirects_def flat_def chunk_def)
  let ?F = "sample_env lookup_target media_down"
  let ?g = "[original_post, broken_post]"
  let ?g' = "[original_post, broken_post, target_post, merge_fields original_post target_post]"
  have c: "deref ?g 0 = Some original_post
      \<and> slugExtractor (url_pathname ?F) (link original_post) = Inr (Some ''new'')
      \<and> Some ''new'' \<noteq> Some (slug original_post)
      \<and> fetchPageBySlug ?F (Some ''new'') = Inr (target_post # [])"
    by (simp add: deref_def sample_env_def slugExtractor_def sample_url_pathname_def
        original_post_def at_index_def lookup_target_def)
  have r: "deref ?g 1 = Some broken_post \<and> (\<exists>e. snd (redirect_try ?F ?g 1) = Inl e)"
    by (simp add: redirect_try_def deref_def sample_env_def slugExtractor_def
        sample_url_pathname_def broken_post_def)
  have "detectRedirects ?F ?g [0] =
      (?g @ (target_post # []) @ [merge_fields original_post target_post],
       Inr ((length ?g + Suc (length ([] :: post list)))
              # [Suc (length ?g) ..< length ?g + Suc (length ([] :: post list))]))"
    using c detectRedirects_catches [of ?F ?g "[0]"] by blast
  then have alone: "detectRedirects ?F ?g [0] = (?g', Inr [3])"
    by simp
  have none: "detectRedirects ?F ?g [] = (?g, Inr [])"
      "detectRedirects ?F ?g' [] = (?g', Inr [])"
    by (simp_all add: detectRedirects_def flat_def)
  note beside = detectRedirects_catches [of ?F ?g "[0]", THEN conjunct2, THEN conjunct2,
      THEN conjunct2, THEN conjunct2, THEN conjunct1, rule_format, OF r]
  obtain h1 o1 h2 o2 where after: "detectRedirects ?F ?g [0] = (h1, Inr o1)"
      "detectRedirects ?F h1 [] = (h2, Inr o2)"
      "detectRedirects ?F ?g ([0] @ 1 # []) = (h2, Inr (o1 @ 1 # o2))"
    using beside [where xs = "[0]" and ys = "[]"] by blast
  obtain k1 p1 k2 p2 where before: "detectRedirects ?F ?g [] = (k1, Inr p1)"
      "detectRedirects ?F k1 [0] = (k2, Inr p2)"
      "detectRedirects ?F ?g ([] @ 1 # [0]) = (k2, Inr (p1 @ 1 # p2))"
    using beside [where xs = "[]" and ys = "[0]"] by blast
  have "detectRedirects ?F ?g [0, 1] = (?g', Inr [3, 1])"
    using after alone none by simp
  moreover have "detectRedirects ?F ?g [1, 0] = (?g', Inr [1, 3])"
    using before alone none by simp
  ultimately show ?thesis using first t by simp
qed

section \<open>The image link: when it is there\<close>

lemma get_prop_spec:
  "get_prop v k =
     (if v = JUndefined \<or> v = JNull then Inl TypeError
      else Inr (case spec_field k v of None \<Rightarrow> JUndefined | Some u \<Rightarrow> u))"
  by (cases v) (simp_all add: spec_field_def)

lemma spec_field_undefined: "spec_field k JUndefined = None" "spec_field k JNull = None"
  by (simp_all add: spec_field_def)

text \<open>
  The chain of property reads against the path of the specification: a read on the way
  raises exactly when the path so far is not there; the last read does not.
\<close>

lemma getImageLink_path:
  "getImageLink f n =
     (case f (''media/'' @ number_string n) of
        Inl e \<Rightarrow> Inl e
      | Inr xs \<Rightarrow>
          (case spec_full_size xs of
             None \<Rightarrow> Inl TypeError
           | Some full \<Rightarrow>
               if full = JUndefined \<or> full = JNull then Inl TypeError
               else Inr (case spec_field ''source_url'' full of
                           None \<Rightarrow> JUndefined | Some u \<Rightarrow> u)))"
proof (cases "f (''media/'' @ number_string n)")
  case (Inl e)
  then show ?thesis by (simp add: getImageLink_def getImageLink_try_def)
next
  case (Inr xs)
  show ?thesis
    unfolding getImageLink_def getImageLink_try_def spec_full_size_def
    by (auto simp: Inr get_prop_spec spec_field_undefined
        split: option.splits sum.splits Option.bind_splits)
qed

lemma image_item_raises:
  "deref h a = Some p \<Longrightarrow> getImageLink (fetchData E) (featured_media p) = Inl e
   \<Longrightarrow> image_item E h a = (h, Inr a)"
  by (simp add: image_item_def image_try_def)

lemma image_item_copies:
  "deref h a = Some p \<Longrightarrow> getImageLink (fetchData E) (featured_media p) = Inr l
   \<Longrightarrow> image_item E h a = (h @ [p\<lparr>image_field := l\<rparr>], Inr (length h))"
  by (simp add: image_item_def image_try_def)

lemma image_item_dangling: "deref h a = None \<Longrightarrow> image_item E h a = (h, Inr a)"
  by (simp add: image_item_def image_try_def)

lemma image_item_rel:
  "\<exists>ext' r. image_item E (h0 @ ext) a = (h0 @ ext', Inr r) \<and> image_rel E h0 a r"
proof (cases "image_fails E h0 a")
  case True
  then obtain p e where p: "deref h0 a = Some p"
      "getImageLink (fetchData E) (featured_media p) = Inl e"
    by (auto simp: image_fails_def split: option.splits sum.splits)
  then have "image_item E (h0 @ ext) a = (h0 @ ext, Inr a)"
    using image_item_raises [of "h0 @ ext" a p E e] by (simp add: deref_append_Some)
  then show ?thesis by (auto simp: image_rel_def)
next
  case False
  have "\<exists>ext' r. image_item E (h0 @ ext) a = (h0 @ ext', Inr r)"
  proof (cases "deref (h0 @ ext) a")
    case None
    then show ?thesis using image_item_dangling by blast
  next
    case (Some p)
    show ?thesis
    proof (cases "getImageLink (fetchData E) (featured_media p)")
      case (Inl e)
      then show ?thesis using Some image_item_raises by blast
    next
      case (Inr l)
      then have "image_item E (h0 @ ext) a
          = (h0 @ (ext @ [p\<lparr>image_field := l\<rparr>]), Inr (length (h0 @ ext)))"
        using Some image_item_copies [of "h0 @ ext" a p E l] by simp
      then show ?thesis by blast
    qed
  qed
  then show ?thesis using False by (auto simp: image_rel_def)
qed

text \<open>
  The enricher never writes to an object of the store; where it fulfils, a post whose
  image link cannot be had stands in the output where it stood in the input.
\<close>

lemma addImagesToPost_shape:
  "\<exists>ext r. addImagesToPost E h data = (h @ ext, r)
     \<and> (\<forall>out. r = Inr out \<longrightarrow>
           length out = length data
           \<and> (\<forall>i < length data. image_fails E h (data ! i) \<longrightarrow> out ! i = data ! i))"
proof -
  have "\<exists>ext' vs. map_async (image_item E) (h @ []) data = (h @ ext', map Inr vs)
      \<and> list_all2 (image_rel E h) data vs"
    by (rule map_async_rel) (rule image_item_rel)
  then obtain ext vs where m: "map_async (image_item E) h data = (h @ ext, map Inr vs)"
      and rel: "list_all2 (image_rel E h) data vs"
    by auto
  have vs: "length vs = length data
      \<and> (\<forall>i < length data. image_fails E h (data ! i) \<longrightarrow> vs ! i = data ! i)"
    using rel by (auto simp: list_all2_conv_all_nth image_rel_def)
  show ?thesis
  proof (cases "\<exists>a0 first. at_index data 0 = Some a0 \<and> deref h a0 = Some first
      \<and> \<not> (truthy (image_field first) \<or> featured_media first = 0)")
    case True
    then have "addImagesToPost E h data = (h @ ext, Inr vs)"
      using m by (auto simp: addImagesToPost_def promise_all_fulfilled)
    then show ?thesis using vs by blast
  next
    case False
    then have "addImagesToPost E h data = (h @ [], Inl TypeError)
        \<or> addImagesToPost E h data = (h @ [], Inr data)"
      by (auto simp: addImagesToPost_def split: option.splits)
    then show ?thesis by (metis sum.inject(2) Inl_Inr_False)
  qed
qed

text \<open>
  C9, as the code has it. \<open>getImageLink\<close> rethrows the rejection of the fetch. When
  the fetch fulfils and the nested field is present, it returns that field. It raises a
  \<^verbatim>\<open>TypeError\<close> exactly when the first element, \<^verbatim>\<open>media_details\<close>, \<^verbatim>\<open>sizes\<close> or
  \<^verbatim>\<open>full\<close> is missing or null; when \<^verbatim>\<open>full\<close> is there and only its
  \<^verbatim>\<open>source_url\<close> is missing, it returns \<^verbatim>\<open>undefined\<close> and raises nothing. What it
  raises is caught by its caller inside \<open>addImagesToPost\<close>, post by post: that post stays
  in the output as it is.
\<close>

theorem getImageLink_raises_or_returns:
  "(\<forall>e. f (''media/'' @ number_string n) = Inl e \<longrightarrow> getImageLink f n = Inl e)
   \<and> (\<forall>xs u. f (''media/'' @ number_string n) = Inr xs \<and> spec_nested_field xs = Some u
         \<longrightarrow> getImageLink f n = Inr u)
   \<and> (\<forall>xs. f (''media/'' @ number_string n) = Inr xs
         \<longrightarrow> ((\<exists>e. getImageLink f n = Inl e)
              = (spec_full_size xs = None \<or> spec_full_size xs = Some JUndefined
                 \<or> spec_full_size xs = Some JNull)))
   \<and> (\<forall>xs full. f (''media/'' @ number_string n) = Inr xs \<and> spec_full_size xs = Some full
           \<and> full \<noteq> JUndefined \<and> full \<noteq> JNull \<and> spec_field ''source_url'' full = None
         \<longrightarrow> getImageLink f n = Inr JUndefined)
   \<and> (\<forall>a p e. deref h a = Some p \<and> getImageLink (fetchData E) (featured_media p) = Inl e
         \<longrightarrow> image_item E h a = (h, Inr a))
   \<and> (\<exists>h' r. addImagesToPost E h data = (h', r)
         \<and> (\<forall>out. r = Inr out \<longrightarrow>
               (\<forall>i < length data. \<forall>p e.
                   deref h (data ! i) = Some p
                   \<and> getImageLink (fetchData E) (featured_media p) = Inl e
                   \<longrightarrow> out ! i = data ! i \<and> deref h' (data ! i) = Some p)))"
proof (intro conjI)
  show "\<forall>e. f (''media/'' @ number_string n) = Inl e \<longrightarrow> getImageLink f n = Inl e"
    by (simp add: getImageLink_path)
next
  show "\<forall>xs u. f (''media/'' @ number_string n) = Inr xs \<and> spec_nested_field xs = Some u
         \<longrightarrow> getImageLink f n = Inr u"
    by (auto simp: getImageLink_path spec_nested_field_def spec_field_undefined
        split: option.splits Option.bind_splits)
next
  show "\<forall>xs. f (''media/'' @ number_string n) = Inr xs
         \<longrightarrow> ((\<exists>e. getImageLink f n = Inl e)
              = (spec_full_size xs = None \<or> spec_full_size xs = Some JUndefined
                 \<or> spec_full_size xs = Some JNull))"
    by (auto simp: getImageLink_path split: option.splits)
next
  show "\<forall>xs full. f (''media/'' @ number_string n) = Inr xs \<and> spec_full_size xs = Some full
           \<and> full \<noteq> JUndefined \<and> full \<noteq> JNull \<and> spec_field ''source_url'' full = None
         \<longrightarrow> getImageLink f n = Inr JUndefined"
    by (auto simp: getImageLink_path)
next
  show "\<forall>a p e. deref h a = Some p \<and> getImageLink (fetchData E) (featured_media p) = Inl e
         \<longrightarrow> image_item E h a = (h, Inr a)"
    using image_item_raises by blast
next
  obtain ext r where s: "addImagesToPost E h data = (h @ ext, r)"
    "\<forall>out. r = Inr out \<longrightarrow>
           length out = length data
           \<and> (\<forall>i < length data. image_fails E h (data ! i) \<longrightarrow> out ! i = data ! i)"
    using addImagesToPost_shape by blast
  have "out ! i = data ! i \<and> deref (h @ ext) (data ! i) = Some p"
    if "r = Inr out" "i < length data" "deref h (data ! i) = Some p"
      "getImageLink (fetchData E) (featured_media p) = Inl e" for out i p e
  proof -
    have "image_fails E h (data ! i)" using that(3,4) by (simp add: image_fails_def)
    then show ?thesis using s(2) that(1,2,3) by (simp add: deref_append_Some)
  qed
  then show "\<exists>h' r. addImagesToPost E h data = (h', r)
         \<and> (\<forall>out. r = Inr out \<longrightarrow>
               (\<forall>i < length data. \<forall>p e.
                   deref h (data ! i) = Some p
                   \<and> getImageLink (fetchData E) (featured_media p) = Inl e
                   \<longrightarrow> out ! i = data ! i \<and> deref h' (data ! i) = Some p))"
    using s(1) by blast
qed

lemma media_paths:
  "number_string 7 = ''7''"
  "number_string 8 = ''8''"
  "number_string 9 = ''9''"
  "number_string 0 = ''0''"
  by (simp_all add: number_string_def nat_string.simps digit_char_def)

lemma sample_media:
  "spec_full_size media_with_url = Some (JObj [(''source_url'', JStr ''https://x/i.jpg'')])"
  "spec_nested_field media_with_url = Some (JStr ''https://x/i.jpg'')"
  "spec_full_size media_without_url = Some (JObj [])"
  "spec_nested_field media_without_url = None"
  "spec_full_size media_without_sizes = None"
  by (simp_all add: spec_nested_field_def spec_full_size_def spec_field_def at_index_def
      media_with_url_def media_without_url_def media_without_sizes_def)

theorem getImageLink_raises_or_returns_witness:
  "getImageLink media_lookup 7 = Inr (JStr ''https://x/i.jpg'')
   \<and> getImageLink media_lookup 8 = Inr JUndefined
   \<and> getImageLink media_lookup 9 = Inl TypeError
   \<and> getImageLink media_lookup 0 = Inl (Rejected ''not found'')
   \<and> image_item (sample_env lookup_none media_lookup) [bare_post] 0 = ([bare_post], Inr 0)"
proof -
  let ?E = "sample_env lookup_none media_lookup"
  have f: "media_lookup (''media/'' @ number_string 7) = Inr media_with_url"
    "media_lookup (''media/'' @ number_string 8) = Inr media_without_url"
    "media_lookup (''media/'' @ number_string 9) = Inr media_without_sizes"
    "media_lookup (''media/'' @ number_string 0) = Inl (Rejected ''not found'')"
    by (simp_all add: media_paths media_lookup_def)
  have a: "getImageLink media_lookup 7 = Inr (JStr ''https://x/i.jpg'')"
    using f(1) sample_media(2)
      getImageLink_raises_or_returns [of media_lookup 7 "[bare_post]" ?E "[0]"]
    by blast
  have b: "getImageLink media_lookup 8 = Inr JUndefined"
    using f(2) sample_media(3)
      getImageLink_raises_or_returns [of media_lookup 8 "[bare_post]" ?E "[0]"]
    by (simp add: spec_field_def)
  have "\<exists>e. getImageLink media_lookup 9 = Inl e"
    using f(3) sample_media(5)
      getImageLink_raises_or_returns [of media_lookup 9 "[bare_post]" ?E "[0]"]
    by blast
  then have c: "getImageLink media_lookup 9 = Inl TypeError"
    by (simp add: getImageLink_path media_paths media_lookup_def sample_media)
  have d: "getImageLink media_lookup 0 = Inl (Rejected ''not found'')"
    using f(4) getImageLink_raises_or_returns [of media_lookup 0 "[bare_post]" ?E "[0]"]
    by blast
  have "deref [bare_post] 0 = Some bare_post
      \<and> getImageLink (fetchData ?E) (featured_media bare_post) = Inl TypeError"
    using c by (simp add: deref_def sample_env_def bare_post_def)
  then have "image_item ?E [bare_post] 0 = ([bare_post], Inr 0)"
    using getImageLink_raises_or_returns [of media_lookup 9 "[bare_post]" ?E "[0]"] by blast
  then show ?thesis using a b c d by simp
qed

text \<open>
  C9 as the specification words it: the metadata of item 8 has no \<^verbatim>\<open>source_url\<close>
  under \<^verbatim>\<open>full\<close>, so the expected nested field is absent, and \<open>getImageLink\<close> raises
  nothing: it returns \<^verbatim>\<open>undefined\<close>.
\<close>

theorem getImageLink_missing_url_counterexample:
  "media_lookup ''media/8'' = Inr media_without_url
   \<and> spec_nested_field media_without_url = None
   \<and> getImageLink media_lookup 8 = Inr JUndefined"
  by (simp add: getImageLink_path media_paths media_lookup_def sample_media spec_field_def)

section \<open>The image enricher: the check on the first item\<close>

text \<open>
  C5. When the first item of a non-empty list has a truthy image (a non-empty string
  is one) or its featured media is 0, \<open>addImagesToPost\<close> returns the list as it is and
  the store as it is, whatever the later items are: only the first item is looked at.
\<close>

theorem addImagesToPost_short_circuit:
  "\<forall>first. deref h a0 = Some first
      \<and> ((\<exists>s. image_field first = JStr s \<and> s \<noteq> []) \<or> truthy (image_field first)
         \<or> featured_media first = 0)
     \<longrightarrow> addImagesToPost E h (a0 # rest) = (h, Inr (a0 # rest))"
  by (auto simp: addImagesToPost_def at_index_def)

theorem addImagesToPost_short_circuit_witness:
  "addImagesToPost (sample_env lookup_none media_lookup) [target_post, resolved_post] [0, 1]
     = ([target_post, resolved_post], Inr [0, 1])
   \<and> addImagesToPost (sample_env lookup_none media_lookup)
       [original_post\<lparr>image_field := JUndefined\<rparr>, resolved_post] [0, 1]
     = ([original_post\<lparr>image_field := JUndefined\<rparr>, resolved_post], Inr [0, 1])
   \<and> image_field resolved_post = JUndefined \<and> featured_media resolved_post = 7"
proof -
  let ?E = "sample_env lookup_none media_lookup"
  have a: "deref [target_post, resolved_post] 0 = Some target_post
      \<and> image_field target_post = JStr ''j.jpg'' \<and> ''j.jpg'' \<noteq> []"
    by (simp add: deref_def target_post_def)
  have b: "deref [original_post\<lparr>image_field := JUndefined\<rparr>, resolved_post] 0
        = Some (original_post\<lparr>image_field := JUndefined\<rparr>)
      \<and> featured_media (original_post\<lparr>image_field := JUndefined\<rparr>) = 0"
    by (simp add: deref_def original_post_def)
  show ?thesis
    using a b
      addImagesToPost_short_circuit [of "[target_post, resolved_post]" 0 ?E "[1]"]
      addImagesToPost_short_circuit
        [of "[original_post\<lparr>image_field := JUndefined\<rparr>, resolved_post]" 0 ?E "[1]"]
    by (simp add: resolved_post_def)
qed

text \<open>
  C10. On the empty list \<open>addImagesToPost\<close> does not return the empty list: the read
  of the first item's image raises a \<^verbatim>\<open>TypeError\<close>, which is what the call ends with.
\<close>

theorem addImagesToPost_empty_raises:
  "addImagesToPost E h [] = (h, Inl TypeError) \<and> snd (addImagesToPost E h []) \<noteq> Inr []"
  by (simp add: addImagesToPost_def at_index_def)

theorem addImagesToPost_empty_raises_witness:
  "addImagesToPost (sample_env lookup_none media_lookup) [bare_post] [] = ([bare_post], Inl TypeError)"
  using addImagesToPost_empty_raises [of "sample_env lookup_none media_lookup" "[bare_post]"]
  by simp

section \<open>No object is written to\<close>

text \<open>
  C6. Neither \<open>detectRedirects\<close> nor \<open>addImagesToPost\<close> writes to an object that was
  there before the call: the store after the call is the store before it with new
  objects at the end, so every input item has the fields it had. A merge and an image
  copy are new objects.
\<close>

theorem helpers_do_not_mutate:
  "(\<exists>ext r. detectRedirects E h posts = (h @ ext, r))
   \<and> (\<exists>ext r. addImagesToPost E h posts = (h @ ext, r))
   \<and> (\<forall>a \<in> set posts. \<forall>p. deref h a = Some p
         \<longrightarrow> deref (fst (detectRedirects E h posts)) a = Some p
           \<and> deref (fst (addImagesToPost E h posts)) a = Some p)
   \<and> (\<forall>a p l. deref h a = Some p \<and> getImageLink (fetchData E) (featured_media p) = Inr l
         \<longrightarrow> image_item E h a = (h @ [p\<lparr>image_field := l\<rparr>], Inr (length h)))"
proof -
  obtain e1 r1 where d: "detectRedirects E h posts = (h @ e1, r1)"
    using detectRedirects_shape by blast
  obtain e2 r2 where i: "addImagesToPost E h posts = (h @ e2, r2)"
    using addImagesToPost_shape by blast
  have "\<forall>a \<in> set posts. \<forall>p. deref h a = Some p
         \<longrightarrow> deref (fst (detectRedirects E h posts)) a = Some p
           \<and> deref (fst (addImagesToPost E h posts)) a = Some p"
    by (simp add: d i deref_append_Some)
  then show ?thesis using d i image_item_copies by blast
qed

theorem helpers_do_not_mutate_witness:
  "addImagesToPost (sample_env lookup_target media_lookup)
       [resolved_post, broken_post, bare_post] [0, 1, 2]
     = ([resolved_post, broken_post, bare_post,
         resolved_post\<lparr>image_field := JStr ''https://x/i.jpg''\<rparr>,
         broken_post\<lparr>image_field := JUndefined\<rparr>],
        Inr [3, 4, 2])
   \<and> fst (detectRedirects (sample_env lookup_target media_lookup)
       [resolved_post, broken_post, bare_post] [0, 1, 2]) ! 0 = resolved_post"
proof -
  let ?E = "sample_env lookup_target media_lookup"
  let ?h = "[resolved_post, broken_post, bare_post]"
  have g: "getImageLink media_lookup 7 = Inr (JStr ''https://x/i.jpg'')"
    "getImageLink media_lookup 8 = Inr JUndefined"
    "getImageLink media_lookup 9 = Inl TypeError"
    by (simp_all add: getImageLink_path media_paths media_lookup_def sample_media spec_field_def)
  have "deref ?h 0 = Some resolved_post"
    by (simp add: deref_def)
  then have "deref (fst (detectRedirects ?E ?h [0, 1, 2])) 0 = Some resolved_post"
    using helpers_do_not_mutate [of ?E ?h "[0, 1, 2]"] by simp
  then have "fst (detectRedirects ?E ?h [0, 1, 2]) ! 0 = resolved_post"
    by (simp add: deref_def split: if_splits)
  moreover have "addImagesToPost ?E ?h [0, 1, 2]
     = ([resolved_post, broken_post, bare_post,
         resolved_post\<lparr>image_field := JStr ''https://x/i.jpg''\<rparr>,
         broken_post\<lparr>image_field := JUndefined\<rparr>],
        Inr [3, 4, 2])"
    by (simp add: addImagesToPost_def image_item_def image_try_def deref_def at_index_def
        sample_env_def g resolved_post_def broken_post_def bare_post_def)
  ultimately show ?thesis by simp
qed

end
